theory Spec2Isabelle
  imports Main "HOL-Library.Word"
begin

section \<open>Basic types\<close>

type_synonym int64 = "64 word"
type_synonym uint64 = "64 word"

text \<open>Opaque collaborator handles (\<open>storage.ChunkManager\<close>, \<open>allocator.Interface\<close>).\<close>

type_synonym ChunkManager = nat
type_synonym Allocator = nat

text \<open>
  \<open>msgpb.MsgPosition\<close>: a channel-scoped position. A Go \<open>*msgpb.MsgPosition\<close> is a
  \<open>MsgPosition option\<close>, \<open>None\<close> being the nil pointer. The generated getters are
  nil-safe: on nil they return the zero value.
\<close>

record MsgPosition =
  pos_ChannelName :: string
  pos_MsgID :: "8 word list"
  pos_MsgGroup :: string
  pos_Timestamp :: uint64

definition GetTimestamp :: "MsgPosition option \<Rightarrow> uint64" where
  "GetTimestamp p = (case p of None \<Rightarrow> 0 | Some x \<Rightarrow> pos_Timestamp x)"

definition GetChannelName :: "MsgPosition option \<Rightarrow> string" where
  "GetChannelName p = (case p of None \<Rightarrow> [] | Some x \<Rightarrow> pos_ChannelName x)"

section \<open>Errors and decimal formatting\<close>

datatype error =
  ErrParameterInvalid string string   \<comment> \<open>\<open>merr.WrapErrParameterInvalid(expected, actual)\<close>\<close>
| ErrOther string                     \<comment> \<open>any other error value, by its message\<close>

function formatUint :: "nat \<Rightarrow> string" where
  "formatUint n =
     (if n < 10 then [''0123456789'' ! n]
      else formatUint (n div 10) @ [''0123456789'' ! (n mod 10)])"
  by pat_completeness auto
termination
  by (relation "measure id") auto

text \<open>\<open>strconv.FormatInt(i, 10)\<close> on the value of an \<open>int64\<close>.\<close>

definition FormatInt :: "int \<Rightarrow> string" where
  "FormatInt i = (if i < 0 then CHR ''-'' # formatUint (nat (- i)) else formatUint (nat i))"

section \<open>Sync tasks\<close>

text \<open>
  \<open>Task\<close> is an interface; the manager reads it only through \<open>SegmentID()\<close>,
  \<open>Checkpoint()\<close>, \<open>StartPosition()\<close> and \<open>ChannelName()\<close>, and distinguishes the
  implementations \<open>*SyncTask\<close> and \<open>*SyncTaskV2\<close> in a type switch.
\<close>

record TaskFields =
  segmentID :: int64
  channelName :: string
  startPosition :: "MsgPosition option"
  checkpoint :: "MsgPosition option"
  taskAllocator :: "Allocator option"
  taskChunkManager :: "ChunkManager option"

datatype Task = SyncTask TaskFields | SyncTaskV2 TaskFields | OtherTask TaskFields

fun taskFields :: "Task \<Rightarrow> TaskFields" where
  "taskFields (SyncTask f) = f"
| "taskFields (SyncTaskV2 f) = f"
| "taskFields (OtherTask f) = f"

definition SegmentID :: "Task \<Rightarrow> int64" where
  "SegmentID t = segmentID (taskFields t)"

definition ChannelName :: "Task \<Rightarrow> string" where
  "ChannelName t = channelName (taskFields t)"

definition StartPosition :: "Task \<Rightarrow> MsgPosition option" where
  "StartPosition t = startPosition (taskFields t)"

definition Checkpoint :: "Task \<Rightarrow> MsgPosition option" where
  "Checkpoint t = checkpoint (taskFields t)"

section \<open>The in-flight registry\<close>

text \<open>
  Modelled from the spec: \<open>typeutil.ConcurrentMap\<close> is not among the sources. The spec
  calls the registry a mapping from a task key to the task, with entries inserted at
  submission and removed at completion, and scanned as a snapshot. The snapshot is the
  list of entries in the order \<open>Range\<close> visits them; keys are unique in it.
\<close>

type_synonym registry = "(string \<times> Task) list"

fun Insert :: "string \<Rightarrow> Task \<Rightarrow> registry \<Rightarrow> registry" where
  "Insert k v [] = [(k, v)]"
| "Insert k v ((k', v') # m) = (if k' = k then (k, v) # m else (k', v') # Insert k v m)"

definition Remove :: "string \<Rightarrow> registry \<Rightarrow> registry" where
  "Remove k m = filter (\<lambda>(k', v). k' \<noteq> k) m"

text \<open>\<open>Range\<close> calls the function on each entry until it returns false.\<close>

fun Range :: "registry \<Rightarrow> (string \<Rightarrow> Task \<Rightarrow> 's \<Rightarrow> bool \<times> 's) \<Rightarrow> 's \<Rightarrow> 's" where
  "Range [] f s = s"
| "Range ((k, v) # m) f s = (case f k v s of (True, s') \<Rightarrow> Range m f s' | (False, s') \<Rightarrow> s')"

section \<open>The sync manager\<close>

text \<open>
  Modelled from the spec: \<open>keyLockDispatcher\<close> is not among the sources. The spec gives it
  a worker pool bounded by the parallelism limit and a per-key exclusion; \<open>Submit\<close>
  schedules a task under a key with a completion callback and returns a future. The
  model keeps the pool size and the jobs handed to \<open>Submit\<close> so far: key, task, and the
  registry key that the callback of \<open>SyncData\<close> removes. A future is the index of its job.
\<close>

record keyLockDispatcher =
  workerPoolSize :: int64
  submitted :: "(int64 \<times> Task \<times> string) list"

type_synonym Future = nat

definition newKeyLockDispatcher :: "int64 \<Rightarrow> keyLockDispatcher" where
  "newKeyLockDispatcher parallelTask = \<lparr>workerPoolSize = parallelTask, submitted = []\<rparr>"

definition Submit :: "int64 \<Rightarrow> Task \<Rightarrow> string \<Rightarrow> keyLockDispatcher \<Rightarrow> keyLockDispatcher \<times> Future" where
  "Submit key t cb d = (d\<lparr>submitted := submitted d @ [(key, t, cb)]\<rparr>, length (submitted d))"

record syncManager =
  dispatcher :: keyLockDispatcher
  chunkManager :: ChunkManager
  allocator :: Allocator
  tasks :: registry

text \<open>
  \<open>NewSyncManager\<close> returns the pair (manager, error) of the source; a nil manager or a
  nil error is \<open>None\<close>. Go's \<open>int\<close> is 64 bits wide and signed.
\<close>

definition NewSyncManager ::
  "int64 \<Rightarrow> ChunkManager \<Rightarrow> Allocator \<Rightarrow> syncManager option \<times> error option" where
  "NewSyncManager parallelTask cm al =
     (if parallelTask <s 1
      then (None, Some (ErrParameterInvalid ''positive parallel task number''
                          (FormatInt (sint parallelTask))))
      else (Some \<lparr>dispatcher = newKeyLockDispatcher parallelTask,
                  chunkManager = cm, allocator = al, tasks = []\<rparr>, None))"

text \<open>The function that \<open>GetEarliestPosition\<close> passes to \<open>Range\<close>; the state is the pair
  of the captured variables \<open>cp\<close> and \<open>segmentID\<close>.\<close>

definition earliestStep ::
  "string \<Rightarrow> string \<Rightarrow> Task \<Rightarrow> MsgPosition option \<times> int64 \<Rightarrow> bool \<times> (MsgPosition option \<times> int64)" where
  "earliestStep channel k task s =
     (case s of (cp, segID) \<Rightarrow>
        if StartPosition task = None then (True, (cp, segID))
        else if ChannelName task = channel then
          (if cp = None \<or> GetTimestamp (StartPosition task) < GetTimestamp cp
           then (True, (StartPosition task, SegmentID task))
           else (True, (cp, segID)))
        else (True, (cp, segID)))"

definition GetEarliestPosition :: "syncManager \<Rightarrow> string \<Rightarrow> int64 \<times> MsgPosition option" where
  "GetEarliestPosition mgr channel =
     (case Range (tasks mgr) (earliestStep channel) (None, 0) of
        (cp, segID) \<Rightarrow> (segID, cp))"

text \<open>The condition under which that function assigns \<open>cp\<close> and \<open>segmentID\<close>.\<close>

definition takes :: "string \<Rightarrow> Task \<Rightarrow> MsgPosition option \<Rightarrow> bool" where
  "takes c t cp \<longleftrightarrow> StartPosition t \<noteq> None \<and> ChannelName t = c \<and>
     (cp = None \<or> GetTimestamp (StartPosition t) < GetTimestamp cp)"

definition hasStart :: "string \<times> Task \<Rightarrow> bool" where
  "hasStart e \<longleftrightarrow> StartPosition (snd e) \<noteq> None"

section \<open>Submitting a task\<close>

text \<open>The builder methods of the two task types, which store the collaborators.\<close>

definition WithAllocator :: "Allocator \<Rightarrow> TaskFields \<Rightarrow> TaskFields" where
  "WithAllocator a f = f\<lparr>taskAllocator := Some a\<rparr>"

definition WithChunkManager :: "ChunkManager \<Rightarrow> TaskFields \<Rightarrow> TaskFields" where
  "WithChunkManager cm f = f\<lparr>taskChunkManager := Some cm\<rparr>"

text \<open>\<open>fmt.Sprintf("%d-%d", task.SegmentID(), task.Checkpoint().GetTimestamp())\<close>: the
  segment id is signed, the timestamp unsigned.\<close>

definition taskKey :: "Task \<Rightarrow> string" where
  "taskKey task =
     FormatInt (sint (SegmentID task)) @ ''-'' @ formatUint (unat (GetTimestamp (Checkpoint task)))"

text \<open>
  \<open>SyncData\<close> returns the future of \<open>Submit\<close>; the manager's registry and dispatcher
  are shared state, returned updated. The source has no other exit.
\<close>

definition SyncData :: "syncManager \<Rightarrow> Task \<Rightarrow> syncManager \<times> Future" where
  "SyncData mgr task0 =
     (let task = (case task0 of
                    SyncTask f \<Rightarrow>
                      SyncTask (WithChunkManager (chunkManager mgr) (WithAllocator (allocator mgr) f))
                  | SyncTaskV2 f \<Rightarrow> SyncTaskV2 (WithAllocator (allocator mgr) f)
                  | OtherTask f \<Rightarrow> OtherTask f);
          key = taskKey task;
          registered = Insert key task (tasks mgr)
      in case Submit (SegmentID task) task key (dispatcher mgr) of
           (d, fut) \<Rightarrow> (mgr\<lparr>dispatcher := d, tasks := registered\<rparr>, fut))"

text \<open>The callback that \<open>SyncData\<close> hands to \<open>Submit\<close>: it removes the task from the records.\<close>

definition syncDataCallback :: "string \<Rightarrow> syncManager \<Rightarrow> syncManager" where
  "syncDataCallback key mgr = mgr\<lparr>tasks := Remove key (tasks mgr)\<rparr>"

section \<open>The time-tick node\<close>

text \<open>
  A \<open>time.Time\<close> without monotonic reading is an instant, here the number of nanoseconds
  since the Unix epoch; the zero \<open>time.Time{}\<close> is January 1 of year 1, 00:00:00 UTC, that
  is 62135596800 seconds before the epoch. A \<open>time.Duration\<close> is an \<open>int64\<close> count of
  nanoseconds, and \<open>Time.Sub\<close> returns the maximum or the minimum duration when the
  difference does not fit.
\<close>

type_synonym Time = int
type_synonym Duration = "64 word"

definition zeroTime :: Time where
  "zeroTime = - 62135596800 * 1000000000"

definition maxDuration :: int where
  "maxDuration = 2 ^ 63 - 1"

definition minDuration :: int where
  "minDuration = - (2 ^ 63)"

definition time_Sub :: "Time \<Rightarrow> Time \<Rightarrow> Duration" where
  "time_Sub t u =
     (if maxDuration < t - u then word_of_int maxDuration
      else if t - u < minDuration then word_of_int minDuration
      else word_of_int (t - u))"

text \<open>
  The message of the flow graph, with the fields that \<open>Operate\<close> reads. Any other
  implementation of \<open>Msg\<close> is \<open>OtherMsg\<close>.
\<close>

record TimeRange =
  timestampMin :: uint64
  timestampMax :: uint64

record flowGraphMsg =
  isCloseMsg :: bool
  timeRange :: TimeRange
  endPositions :: "MsgPosition list"

datatype Msg = FlowGraphMsg flowGraphMsg | OtherMsg

text \<open>
  The collaborators of the node. \<open>writebuffer.BufferManager\<close> is an interface:
  \<open>GetCheckpoint\<close> returns the position, the needs-update flag and the error.
  \<open>tsoutil.ParseTS\<close> and the constant \<open>updateChanCPInterval\<close> are not among the sources;
  they are parameters.
\<close>

record BufferManager =
  GetCheckpoint :: "string \<Rightarrow> MsgPosition option \<times> bool \<times> error option"

record pkgEnv =
  ParseTS :: "uint64 \<Rightarrow> Time"
  updateChanCPInterval :: Duration

record BaseNode =
  maxQueueLength :: "32 word"
  maxParallelism :: "32 word"

record ttNode =
  baseNode :: BaseNode
  vChannelName :: string
  writeBufferManager :: BufferManager
  lastUpdateTime :: Time

text \<open>The closure \<open>callBack\<close> of \<open>updateChannelCP\<close> captures the position and \<open>curTs\<close>.\<close>

record callBack =
  cb_channelPos :: "MsgPosition option"
  cb_curTs :: Time

text \<open>What the node does to its collaborators, in order.\<close>

datatype event =
  GetCheckpointReturned string "MsgPosition option \<times> bool \<times> error option"
| LogWarnChannelRemoved string error
| LogInfoForceUpdate uint64 string
| CpUpdaterUpdateChannelCP "MsgPosition option" callBack
| NotifyCheckpointUpdated string uint64
| LogDebugSuccess string uint64

datatype outcome = Panicked | Returned "Msg list" ttNode "event list"

fun outputOf :: "outcome \<Rightarrow> Msg list" where
  "outputOf Panicked = []"
| "outputOf (Returned out ttn evs) = out"

fun eventsOf :: "outcome \<Rightarrow> event list" where
  "eventsOf Panicked = []"
| "eventsOf (Returned out ttn evs) = evs"

fun isUpdate :: "event \<Rightarrow> bool" where
  "isUpdate (CpUpdaterUpdateChannelCP p cb) = True"
| "isUpdate e = False"

definition updateIssued :: "outcome \<Rightarrow> bool" where
  "updateIssued r = list_ex isUpdate (eventsOf r)"

text \<open>\<open>ttNode.updateChannelCP\<close> builds the callback and hands it, with the position, to
  the checkpoint updater. It stores nothing in the node.\<close>

definition updateChannelCP :: "ttNode \<Rightarrow> MsgPosition option \<Rightarrow> Time \<Rightarrow> ttNode \<times> event list" where
  "updateChannelCP ttn channelPos curTs =
     (ttn, [CpUpdaterUpdateChannelCP channelPos \<lparr>cb_channelPos = channelPos, cb_curTs = curTs\<rparr>])"

text \<open>Running the callback: the only store to \<open>lastUpdateTime\<close>. It returns nil.\<close>

definition runCallBack :: "ttNode \<Rightarrow> callBack \<Rightarrow> ttNode \<times> event list \<times> error option" where
  "runCallBack ttn cb =
     (ttn\<lparr>lastUpdateTime := cb_curTs cb\<rparr>,
      [NotifyCheckpointUpdated (vChannelName ttn) (GetTimestamp (cb_channelPos cb)),
       LogDebugSuccess (vChannelName ttn) (GetTimestamp (cb_channelPos cb))],
      None)"

text \<open>\<open>Operate\<close>: \<open>in[0].(*flowGraphMsg)\<close> panics on an empty input and on a message of
  another type.\<close>

fun Operate :: "pkgEnv \<Rightarrow> ttNode \<Rightarrow> Msg list \<Rightarrow> outcome" where
  "Operate env ttn [] = Panicked"
| "Operate env ttn (OtherMsg # rest) = Panicked"
| "Operate env ttn (FlowGraphMsg fgMsg # rest) =
     (let inMsgs = FlowGraphMsg fgMsg # rest;
          curTs = ParseTS env (timestampMax (timeRange fgMsg))
      in if isCloseMsg fgMsg then
           (if length (endPositions fgMsg) > 0 then
              (case GetCheckpoint (writeBufferManager ttn) (vChannelName ttn) of
                 (channelPos, needUpdate, Some err) \<Rightarrow>
                   Returned [] ttn
                     [GetCheckpointReturned (vChannelName ttn) (channelPos, needUpdate, Some err),
                      LogWarnChannelRemoved (vChannelName ttn) err]
               | (channelPos, needUpdate, None) \<Rightarrow>
                   (case updateChannelCP ttn channelPos curTs of
                      (ttn', evs) \<Rightarrow>
                        Returned inMsgs ttn'
                          ([GetCheckpointReturned (vChannelName ttn) (channelPos, needUpdate, None),
                            LogInfoForceUpdate (GetTimestamp channelPos) (GetChannelName channelPos)]
                           @ evs)))
            else Returned inMsgs ttn [])
         else
           (case GetCheckpoint (writeBufferManager ttn) (vChannelName ttn) of
              (channelPos, needUpdate, Some err) \<Rightarrow>
                Returned [] ttn
                  [GetCheckpointReturned (vChannelName ttn) (channelPos, needUpdate, Some err),
                   LogWarnChannelRemoved (vChannelName ttn) err]
            | (channelPos, needUpdate, None) \<Rightarrow>
                if needUpdate \<or> updateChanCPInterval env \<le>s time_Sub curTs (lastUpdateTime ttn)
                then (case updateChannelCP ttn channelPos curTs of
                        (ttn', evs) \<Rightarrow>
                          Returned [] ttn'
                            (GetCheckpointReturned (vChannelName ttn) (channelPos, needUpdate, None) # evs))
                else Returned [] ttn
                       [GetCheckpointReturned (vChannelName ttn) (channelPos, needUpdate, None)]))"

text \<open>\<open>newTTNode\<close> returns the node and a nil error. The queue length and parallelism come
  from the configuration.\<close>

record nodeConfig =
  cfg_vChannelName :: string
  cfg_FlowGraphMaxQueueLength :: "32 word"
  cfg_FlowGraphMaxParallelism :: "32 word"

definition newTTNode :: "nodeConfig \<Rightarrow> BufferManager \<Rightarrow> ttNode option \<times> error option" where
  "newTTNode config wbManager =
     (Some \<lparr>baseNode = \<lparr>maxQueueLength = cfg_FlowGraphMaxQueueLength config,
                         maxParallelism = cfg_FlowGraphMaxParallelism config\<rparr>,
            vChannelName = cfg_vChannelName config,
            writeBufferManager = wbManager,
            lastUpdateTime = zeroTime\<rparr>, None)"

section \<open>The checkpoint updater\<close>

text \<open>
  Modelled from the spec: \<open>channelCheckpointUpdater\<close>, to which \<open>ttNode.updateChannelCP\<close>
  hands the position and the callback, is not among the sources. The spec's
  CheckpointUpdater keeps, per channel, the last successfully published position. An update
  whose position is not newer by timestamp than that one is a no-op; any other update is
  queued for durable publication. Updates for a channel coalesce: only the newest queued
  position need be published. A publication that fails is retried; when the store accepts
  it, the position becomes the last published one and the success callbacks run.

  The state also records every value passed to the durable publish call, in order, and the
  callbacks that have run.
\<close>

record 'cb channelCheckpointUpdater =
  published :: "string \<Rightarrow> MsgPosition option"
  pending :: "string \<Rightarrow> (MsgPosition \<times> 'cb list) option"
  publishCalls :: "(string \<times> MsgPosition) list"
  succeeded :: "'cb list"

definition newChannelCheckpointUpdater :: "'cb channelCheckpointUpdater" where
  "newChannelCheckpointUpdater =
     \<lparr>published = (\<lambda>c. None), pending = (\<lambda>c. None), publishCalls = [], succeeded = []\<rparr>"

definition notNewer :: "MsgPosition \<Rightarrow> MsgPosition option \<Rightarrow> bool" where
  "notNewer p lastPub =
     (case lastPub of None \<Rightarrow> False | Some q \<Rightarrow> pos_Timestamp p \<le> pos_Timestamp q)"

definition update ::
  "string \<Rightarrow> MsgPosition \<Rightarrow> 'cb \<Rightarrow> 'cb channelCheckpointUpdater \<Rightarrow> 'cb channelCheckpointUpdater" where
  "update c p onSuccess u =
     (if notNewer p (published u c) then u
      else case pending u c of
             None \<Rightarrow> u\<lparr>pending := (pending u)(c \<mapsto> (p, [onSuccess]))\<rparr>
           | Some (q, cbs) \<Rightarrow>
               u\<lparr>pending := (pending u)(c \<mapsto>
                    (if pos_Timestamp q < pos_Timestamp p then p else q, cbs @ [onSuccess]))\<rparr>)"

text \<open>One attempt to publish the queued position of a channel; \<open>accepted\<close> tells whether
  the durable store took it.\<close>

definition publish ::
  "string \<Rightarrow> bool \<Rightarrow> 'cb channelCheckpointUpdater \<Rightarrow> 'cb channelCheckpointUpdater" where
  "publish c accepted u =
     (case pending u c of
        None \<Rightarrow> u
      | Some (p, cbs) \<Rightarrow>
          if accepted
          then u\<lparr>published := (published u)(c \<mapsto> p), pending := (pending u)(c := None),
                 publishCalls := publishCalls u @ [(c, p)], succeeded := succeeded u @ cbs\<rparr>
          else u\<lparr>publishCalls := publishCalls u @ [(c, p)]\<rparr>)"

datatype 'cb cpEvent = Update string MsgPosition 'cb | Publish string bool

fun cpStep :: "'cb channelCheckpointUpdater \<Rightarrow> 'cb cpEvent \<Rightarrow> 'cb channelCheckpointUpdater" where
  "cpStep u (Update c p onSuccess) = update c p onSuccess u"
| "cpStep u (Publish c accepted) = publish c accepted u"

definition cpRun :: "'cb cpEvent list \<Rightarrow> 'cb channelCheckpointUpdater" where
  "cpRun evs = foldl cpStep newChannelCheckpointUpdater evs"

text \<open>The timestamps passed to the durable publish call for one channel, in order.\<close>

definition publishedTimestamps :: "string \<Rightarrow> 'cb channelCheckpointUpdater \<Rightarrow> uint64 list" where
  "publishedTimestamps c u = map (\<lambda>e. pos_Timestamp (snd e)) (filter (\<lambda>e. fst e = c) (publishCalls u))"

text \<open>The highest timestamp that the next publish call for a channel can carry: that of
  the queued position, or else of the last published one.\<close>

definition ceiling_ts :: "string \<Rightarrow> 'cb channelCheckpointUpdater \<Rightarrow> uint64 option" where
  "ceiling_ts c u =
     (case pending u c of
        Some (p, cbs) \<Rightarrow> Some (pos_Timestamp p)
      | None \<Rightarrow> map_option pos_Timestamp (published u c))"

definition cpInv :: "string \<Rightarrow> 'cb channelCheckpointUpdater \<Rightarrow> bool" where
  "cpInv c u \<longleftrightarrow>
     sorted (publishedTimestamps c u)
     \<and> list_all (\<lambda>t. case ceiling_ts c u of None \<Rightarrow> False | Some b \<Rightarrow> t \<le> b) (publishedTimestamps c u)
     \<and> (case pending u c of
          None \<Rightarrow> True
        | Some (p, cbs) \<Rightarrow> \<not> notNewer p (published u c))"

section \<open>Example values\<close>

definition posAt :: "string \<Rightarrow> uint64 \<Rightarrow> MsgPosition" where
  "posAt c ts = \<lparr>pos_ChannelName = c, pos_MsgID = [], pos_MsgGroup = [], pos_Timestamp = ts\<rparr>"

definition mkTask :: "int64 \<Rightarrow> string \<Rightarrow> MsgPosition option \<Rightarrow> MsgPosition option \<Rightarrow> Task" where
  "mkTask seg c sp cp = SyncTask \<lparr>segmentID = seg, channelName = c, startPosition = sp,
     checkpoint = cp, taskAllocator = None, taskChunkManager = None\<rparr>"

definition mgrWith :: "registry \<Rightarrow> syncManager" where
  "mgrWith m = \<lparr>dispatcher = newKeyLockDispatcher 4, chunkManager = 1, allocator = 2, tasks = m\<rparr>"

text \<open>One in-flight task on channel \<open>ch1\<close>, for segment 7, with a nil start position.\<close>

definition exNilStart :: syncManager where
  "exNilStart = mgrWith [(''7-100'', mkTask 7 ''ch1'' None (Some (posAt ''ch1'' 100)))]"

text \<open>Tasks on \<open>ch1\<close> starting at 5 and at 3, one on \<open>ch1\<close> with a nil start position, and
  one on \<open>ch2\<close> starting at 1.\<close>

definition exMixed :: syncManager where
  "exMixed = mgrWith
     [(''7-100'', mkTask 7 ''ch1'' (Some (posAt ''ch1'' 5)) (Some (posAt ''ch1'' 100))),
      (''8-100'', mkTask 8 ''ch1'' None (Some (posAt ''ch1'' 100))),
      (''9-200'', mkTask 9 ''ch1'' (Some (posAt ''ch1'' 3)) (Some (posAt ''ch1'' 200))),
      (''4-50'', mkTask 4 ''ch2'' (Some (posAt ''ch2'' 1)) (Some (posAt ''ch2'' 50)))]"

text \<open>A run of the updater on one channel: a failed publication of 10, a newer and an older
  update queued behind it, the publication of 20, then updates that are not newer.\<close>

definition exUpdates :: "nat cpEvent list" where
  "exUpdates =
     [Update ''ch1'' (posAt ''ch1'' 10) 1, Publish ''ch1'' False,
      Update ''ch1'' (posAt ''ch1'' 20) 2, Update ''ch1'' (posAt ''ch1'' 15) 3,
      Publish ''ch1'' True,
      Update ''ch1'' (posAt ''ch1'' 20) 4, Update ''ch1'' (posAt ''ch1'' 5) 5,
      Publish ''ch1'' True]"

text \<open>An environment with a one-minute interval, and a hybrid timestamp whose bits above
  the lowest 18 count milliseconds since the epoch.\<close>

definition exEnv :: pkgEnv where
  "exEnv = \<lparr>ParseTS = (\<lambda>ts. int (unat (drop_bit 18 ts)) * 1000000),
            updateChanCPInterval = 60000000000\<rparr>"

text \<open>Write buffers: one that has a checkpoint at 42 and the given flag, and one that no
  longer tracks the channel.\<close>

definition wbAt :: "bool \<Rightarrow> BufferManager" where
  "wbAt needUpdate = \<lparr>GetCheckpoint = (\<lambda>c. (Some (posAt c 42), needUpdate, None))\<rparr>"

definition wbRemoved :: BufferManager where
  "wbRemoved = \<lparr>GetCheckpoint = (\<lambda>c. (None, False, Some (ErrOther ''channel not found'')))\<rparr>"

definition exNode :: "BufferManager \<Rightarrow> Time \<Rightarrow> ttNode" where
  "exNode wb t = \<lparr>baseNode = \<lparr>maxQueueLength = 1024, maxParallelism = 1\<rparr>,
                  vChannelName = ''ch1'', writeBufferManager = wb, lastUpdateTime = t\<rparr>"

definition exConfig :: nodeConfig where
  "exConfig = \<lparr>cfg_vChannelName = ''ch1'', cfg_FlowGraphMaxQueueLength = 1024,
               cfg_FlowGraphMaxParallelism = 1\<rparr>"

definition tickMsg :: "uint64 \<Rightarrow> Msg" where
  "tickMsg ts = FlowGraphMsg \<lparr>isCloseMsg = False,
     timeRange = \<lparr>timestampMin = 0, timestampMax = ts\<rparr>, endPositions = []\<rparr>"

definition closeMsg :: "uint64 \<Rightarrow> MsgPosition list \<Rightarrow> Msg" where
  "closeMsg ts eps = FlowGraphMsg \<lparr>isCloseMsg = True,
     timeRange = \<lparr>timestampMin = 0, timestampMax = ts\<rparr>, endPositions = eps\<rparr>"

section \<open>The earliest position of a channel\<close>

lemma Range_Cons:
  "Range ((k, t) # m) (earliestStep c) (cp, seg) =
     Range m (earliestStep c) (if takes c t cp then (StartPosition t, SegmentID t) else (cp, seg))"
  by (cases "StartPosition t") (auto simp: earliestStep_def takes_def)

lemma Range_le_acc:
  "cp \<noteq> None \<Longrightarrow>
     GetTimestamp (fst (Range m (earliestStep c) (cp, seg))) \<le> GetTimestamp cp"
proof (induction m arbitrary: cp seg)
  case Nil
  show ?case by simp
next
  case (Cons a m)
  obtain k t where a: "a = (k, t)" by (cases a)
  show ?case
  proof (cases "takes c t cp")
    case True
    then have sp: "StartPosition t \<noteq> None" and lt: "GetTimestamp (StartPosition t) < GetTimestamp cp"
      using Cons.prems by (auto simp: takes_def)
    from Cons.IH [OF sp, of "SegmentID t"] lt True show ?thesis
      unfolding a Range_Cons by simp
  next
    case False
    with Cons.IH [OF Cons.prems, of seg] show ?thesis
      unfolding a Range_Cons by simp
  qed
qed

lemma Range_le_all:
  "(k, t) \<in> set m \<Longrightarrow> ChannelName t = c \<Longrightarrow> StartPosition t \<noteq> None \<Longrightarrow>
     GetTimestamp (fst (Range m (earliestStep c) (cp, seg))) \<le> GetTimestamp (StartPosition t)"
proof (induction m arbitrary: cp seg)
  case Nil
  then show ?case by simp
next
  case (Cons a m)
  obtain k' t' where a: "a = (k', t')" by (cases a)
  show ?case
  proof (cases "(k, t) = (k', t')")
    case True
    show ?thesis
    proof (cases "takes c t cp")
      case tk: True
      from Range_le_acc [OF Cons.prems(3), of m c "SegmentID t"] tk show ?thesis
        unfolding a True [symmetric] Range_Cons by simp
    next
      case nt: False
      then have cp: "cp \<noteq> None" and le: "GetTimestamp cp \<le> GetTimestamp (StartPosition t)"
        using Cons.prems by (auto simp: takes_def)
      from Range_le_acc [OF cp, of m c seg] le nt show ?thesis
        unfolding a True [symmetric] Range_Cons by simp
    qed
  next
    case False
    then have "(k, t) \<in> set m" using Cons.prems(1) a by auto
    from Cons.IH [OF this Cons.prems(2,3)] show ?thesis
      unfolding a Range_Cons by simp
  qed
qed

lemma Range_None_iff:
  "fst (Range m (earliestStep c) (cp, seg)) = None \<longleftrightarrow>
     cp = None \<and> (\<forall>(k, t) \<in> set m. ChannelName t = c \<longrightarrow> StartPosition t = None)"
proof (induction m arbitrary: cp seg)
  case Nil
  show ?case by simp
next
  case (Cons a m)
  obtain k t where a: "a = (k, t)" by (cases a)
  show ?case unfolding a Range_Cons
    by (cases "takes c t cp") (auto simp: Cons.IH takes_def)
qed

lemma Range_None_seg:
  "fst (Range m (earliestStep c) (cp, seg)) = None \<Longrightarrow>
     snd (Range m (earliestStep c) (cp, seg)) = seg"
proof (induction m arbitrary: cp seg)
  case Nil
  show ?case by simp
next
  case (Cons a m)
  obtain k t where a: "a = (k, t)" by (cases a)
  show ?case
  proof (cases "takes c t cp")
    case True
    with Cons.prems have "fst (Range m (earliestStep c) (StartPosition t, SegmentID t)) = None"
      unfolding a Range_Cons by simp
    then have "StartPosition t = None" by (simp add: Range_None_iff)
    with True show ?thesis by (simp add: takes_def)
  next
    case False
    with Cons.prems Cons.IH [of cp seg] show ?thesis
      unfolding a Range_Cons by simp
  qed
qed

lemma Range_origin:
  "Range m (earliestStep c) (cp, seg) = (cp, seg) \<or>
     (\<exists>(k, t) \<in> set m. ChannelName t = c \<and> StartPosition t \<noteq> None \<and>
        Range m (earliestStep c) (cp, seg) = (StartPosition t, SegmentID t))"
proof (induction m arbitrary: cp seg)
  case Nil
  show ?case by simp
next
  case (Cons a m)
  obtain k t where a: "a = (k, t)" by (cases a)
  show ?case
  proof (cases "takes c t cp")
    case True
    with Cons.IH [of "StartPosition t" "SegmentID t"] show ?thesis
      unfolding a Range_Cons by (auto simp: takes_def)
  next
    case False
    with Cons.IH [of cp seg] show ?thesis
      unfolding a Range_Cons by auto
  qed
qed


lemmas ex_simps = GetEarliestPosition_def exMixed_def exNilStart_def mgrWith_def mkTask_def
  earliestStep_def StartPosition_def ChannelName_def SegmentID_def GetTimestamp_def posAt_def

text \<open>
  Claim C1, as the code has it. \<open>GetEarliestPosition\<close> scans the registry and skips every
  task whose start position is nil. When no in-flight task on channel \<open>c\<close> has a start
  position, in particular when no task for \<open>c\<close> is in flight, it returns segment id 0 and
  a nil position. Otherwise it returns the segment id and the start position of an
  in-flight task on \<open>c\<close> whose start position is not nil and whose start timestamp is the
  least among such tasks; so the returned timestamp is never greater than the start
  timestamp of any in-flight task on \<open>c\<close> that has a start position. The statement holds
  for every order in which \<open>Range\<close> visits the entries.
\<close>

theorem GetEarliestPosition_min_start:
  "(\<not> (\<exists>(k, t) \<in> set (tasks mgr). ChannelName t = c \<and> StartPosition t \<noteq> None) \<longrightarrow>
      GetEarliestPosition mgr c = (0, None))
   \<and> ((\<exists>(k, t) \<in> set (tasks mgr). ChannelName t = c \<and> StartPosition t \<noteq> None) \<longrightarrow>
      (\<exists>(k, t) \<in> set (tasks mgr). ChannelName t = c \<and> StartPosition t \<noteq> None \<and>
          GetEarliestPosition mgr c = (SegmentID t, StartPosition t) \<and>
          (\<forall>(k', t') \<in> set (tasks mgr). ChannelName t' = c \<longrightarrow> StartPosition t' \<noteq> None \<longrightarrow>
              GetTimestamp (StartPosition t) \<le> GetTimestamp (StartPosition t'))))"
proof (intro conjI impI)
  let ?r = "Range (tasks mgr) (earliestStep c) (None, 0)"
  assume "\<not> (\<exists>(k, t) \<in> set (tasks mgr). ChannelName t = c \<and> StartPosition t \<noteq> None)"
  then have "fst ?r = None"
    unfolding Range_None_iff by auto
  moreover from this have "snd ?r = 0" by (rule Range_None_seg)
  ultimately show "GetEarliestPosition mgr c = (0, None)"
    by (simp add: GetEarliestPosition_def split_beta)
next
  let ?r = "Range (tasks mgr) (earliestStep c) (None, 0)"
  assume ex: "\<exists>(k, t) \<in> set (tasks mgr). ChannelName t = c \<and> StartPosition t \<noteq> None"
  then have nn: "fst ?r \<noteq> None"
    unfolding Range_None_iff by auto
  then have "?r \<noteq> (None, 0)" by auto
  with Range_origin [of "tasks mgr" c None 0]
  obtain k t where kt: "(k, t) \<in> set (tasks mgr)" "ChannelName t = c" "StartPosition t \<noteq> None"
    and r: "?r = (StartPosition t, SegmentID t)"
    by auto
  have "GetTimestamp (StartPosition t) \<le> GetTimestamp (StartPosition t')"
    if "(k', t') \<in> set (tasks mgr)" "ChannelName t' = c" "StartPosition t' \<noteq> None" for k' t'
    using Range_le_all [OF that, of None 0] r by simp
  with kt r show "\<exists>(k, t) \<in> set (tasks mgr). ChannelName t = c \<and> StartPosition t \<noteq> None \<and>
          GetEarliestPosition mgr c = (SegmentID t, StartPosition t) \<and>
          (\<forall>(k', t') \<in> set (tasks mgr). ChannelName t' = c \<longrightarrow> StartPosition t' \<noteq> None \<longrightarrow>
              GetTimestamp (StartPosition t) \<le> GetTimestamp (StartPosition t'))"
    by (auto simp: GetEarliestPosition_def intro!: bexI [of _ "(k, t)"])
qed


theorem GetEarliestPosition_min_start_witness:
  "GetEarliestPosition exMixed ''ch1'' = (9, Some (posAt ''ch1'' 3))
   \<and> GetEarliestPosition exMixed ''ch3'' = (0, None)"
  using GetEarliestPosition_min_start [of exMixed "''ch1''"]
    GetEarliestPosition_min_start [of exMixed "''ch3''"]
  by (simp add: ex_simps)

text \<open>
  C1 as written fails when a task without start position is in flight. With the single
  task of segment 7 on \<open>ch1\<close> in the registry, the call returns segment id 0 and nil,
  which is the pair of no in-flight task. With the task of segment 8 among others on
  \<open>ch1\<close>, whose nil start position reads as timestamp 0 through the getter, the call
  returns a position at timestamp 3.
\<close>

theorem GetEarliestPosition_nil_start_counterexample:
  "tasks exNilStart = [(''7-100'', mkTask 7 ''ch1'' None (Some (posAt ''ch1'' 100)))]
   \<and> ChannelName (mkTask 7 ''ch1'' None (Some (posAt ''ch1'' 100))) = ''ch1''
   \<and> SegmentID (mkTask 7 ''ch1'' None (Some (posAt ''ch1'' 100))) = 7
   \<and> GetEarliestPosition exNilStart ''ch1'' = (0, None)
   \<and> (''8-100'', mkTask 8 ''ch1'' None (Some (posAt ''ch1'' 100))) \<in> set (tasks exMixed)
   \<and> GetTimestamp (StartPosition (mkTask 8 ''ch1'' None (Some (posAt ''ch1'' 100)))) = 0
   \<and> GetTimestamp (snd (GetEarliestPosition exMixed ''ch1'')) = 3"
  by (simp add: ex_simps)

lemma Range_filter_hasStart:
  "Range (filter hasStart m) (earliestStep c) (cp, seg) = Range m (earliestStep c) (cp, seg)"
proof (induction m arbitrary: cp seg)
  case Nil
  show ?case by simp
next
  case (Cons a m)
  obtain k t where a: "a = (k, t)" by (cases a)
  show ?case
  proof (cases "StartPosition t = None")
    case True
    then have "\<not> takes c t cp" by (simp add: takes_def)
    then have "Range ((k, t) # m) (earliestStep c) (cp, seg) = Range m (earliestStep c) (cp, seg)"
      by (simp only: Range_Cons if_False)
    moreover have "filter hasStart ((k, t) # m) = filter hasStart m"
      using True by (simp add: hasStart_def)
    ultimately show ?thesis
      unfolding a using Cons.IH [of cp seg] by simp
  next
    case False
    then have "filter hasStart ((k, t) # m) = (k, t) # filter hasStart m"
      by (simp add: hasStart_def)
    then show ?thesis
      unfolding a by (cases "takes c t cp") (simp_all only: Range_Cons Cons.IH if_True if_False)
  qed
qed

text \<open>
  Claim C10. The result of \<open>GetEarliestPosition\<close> depends only on the in-flight tasks
  whose start position is not nil: two registries with the same such entries, in the same
  order, give the same result, and removing the tasks without start position changes
  nothing. If every in-flight task on channel \<open>c\<close> has a nil start position, the call
  returns (0, nil), as it does on the empty registry.
\<close>

theorem GetEarliestPosition_ignores_nil_start:
  "(filter hasStart (tasks mgr) = filter hasStart (tasks mgr') \<longrightarrow>
      GetEarliestPosition mgr c = GetEarliestPosition mgr' c)
   \<and> GetEarliestPosition (mgr\<lparr>tasks := filter hasStart (tasks mgr)\<rparr>) c = GetEarliestPosition mgr c
   \<and> ((\<forall>(k, t) \<in> set (tasks mgr). ChannelName t = c \<longrightarrow> StartPosition t = None) \<longrightarrow>
        GetEarliestPosition mgr c = (0, None)
        \<and> GetEarliestPosition mgr c = GetEarliestPosition (mgr\<lparr>tasks := []\<rparr>) c)"
proof (intro conjI impI)
  assume "filter hasStart (tasks mgr) = filter hasStart (tasks mgr')"
  then have "Range (tasks mgr) (earliestStep c) (None, 0) = Range (tasks mgr') (earliestStep c) (None, 0)"
    using Range_filter_hasStart [of "tasks mgr" c None 0] Range_filter_hasStart [of "tasks mgr'" c None 0]
    by simp
  then show "GetEarliestPosition mgr c = GetEarliestPosition mgr' c"
    by (simp add: GetEarliestPosition_def)
next
  show "GetEarliestPosition (mgr\<lparr>tasks := filter hasStart (tasks mgr)\<rparr>) c = GetEarliestPosition mgr c"
    by (simp add: GetEarliestPosition_def Range_filter_hasStart)
next
  let ?r = "Range (tasks mgr) (earliestStep c) (None, 0)"
  assume "\<forall>(k, t) \<in> set (tasks mgr). ChannelName t = c \<longrightarrow> StartPosition t = None"
  then have "fst ?r = None"
    unfolding Range_None_iff by simp
  moreover from this have "snd ?r = 0" by (rule Range_None_seg)
  ultimately show r: "GetEarliestPosition mgr c = (0, None)"
    by (simp add: GetEarliestPosition_def split_beta)
  then show "GetEarliestPosition mgr c = GetEarliestPosition (mgr\<lparr>tasks := []\<rparr>) c"
    by (simp add: GetEarliestPosition_def)
qed

theorem GetEarliestPosition_ignores_nil_start_witness:
  "GetEarliestPosition exNilStart ''ch1'' = (0, None)
   \<and> GetEarliestPosition exNilStart ''ch1'' = GetEarliestPosition (exNilStart\<lparr>tasks := []\<rparr>) ''ch1''
   \<and> GetEarliestPosition exMixed ''ch1'' =
       GetEarliestPosition (mgrWith [(''7-100'', mkTask 7 ''ch1'' (Some (posAt ''ch1'' 5)) (Some (posAt ''ch1'' 100))),
          (''9-200'', mkTask 9 ''ch1'' (Some (posAt ''ch1'' 3)) (Some (posAt ''ch1'' 200))),
          (''4-50'', mkTask 4 ''ch2'' (Some (posAt ''ch2'' 1)) (Some (posAt ''ch2'' 50)))]) ''ch1''"
  using GetEarliestPosition_ignores_nil_start [of exNilStart exNilStart "''ch1''"]
    GetEarliestPosition_ignores_nil_start [of exMixed "mgrWith [(''7-100'', mkTask 7 ''ch1'' (Some (posAt ''ch1'' 5)) (Some (posAt ''ch1'' 100))),
          (''9-200'', mkTask 9 ''ch1'' (Some (posAt ''ch1'' 3)) (Some (posAt ''ch1'' 200))),
          (''4-50'', mkTask 4 ''ch2'' (Some (posAt ''ch2'' 1)) (Some (posAt ''ch2'' 50)))]" "''ch1''"]
  by (simp add: ex_simps hasStart_def)

section \<open>Creating the manager\<close>

text \<open>
  Claim C4. For every \<open>int\<close> value \<open>p\<close>, \<open>NewSyncManager\<close> with \<open>p < 1\<close> returns a nil
  manager and the parameter-invalid error naming the positive parallel task number and
  the decimal rendering of \<open>p\<close>; with \<open>p \<ge> 1\<close> it returns a manager and a nil error.
\<close>

theorem NewSyncManager_parallelTask:
  "(sint p < 1 \<longrightarrow>
      NewSyncManager p cm al =
        (None, Some (ErrParameterInvalid ''positive parallel task number'' (FormatInt (sint p)))))
   \<and> (1 \<le> sint p \<longrightarrow>
      fst (NewSyncManager p cm al) \<noteq> None \<and> snd (NewSyncManager p cm al) = None)"
  by (simp add: NewSyncManager_def word_sless_alt)

theorem NewSyncManager_parallelTask_witness:
  "NewSyncManager 0 1 2 = (None, Some (ErrParameterInvalid ''positive parallel task number'' ''0''))
   \<and> NewSyncManager (- 3) 1 2 = (None, Some (ErrParameterInvalid ''positive parallel task number'' ''-3''))
   \<and> fst (NewSyncManager 1 1 2) \<noteq> None \<and> snd (NewSyncManager 1 1 2) = None"
  using NewSyncManager_parallelTask [of 0 1 2] NewSyncManager_parallelTask [of "- 3" 1 2]
    NewSyncManager_parallelTask [of 1 1 2]
  by (simp add: FormatInt_def)

section \<open>Submitting a task twice\<close>

lemma map_of_Insert: "map_of (Insert k v m) k = Some v"
  by (induction m) auto

lemma SyncData_result:
  "t' = (case task of
           SyncTask f \<Rightarrow>
             SyncTask (WithChunkManager (chunkManager mgr) (WithAllocator (allocator mgr) f))
         | SyncTaskV2 f \<Rightarrow> SyncTaskV2 (WithAllocator (allocator mgr) f)
         | OtherTask f \<Rightarrow> OtherTask f) \<Longrightarrow>
   SyncData mgr task =
     (mgr\<lparr>dispatcher := (dispatcher mgr)\<lparr>submitted :=
              submitted (dispatcher mgr) @ [(SegmentID task, t', taskKey task)]\<rparr>,
          tasks := Insert (taskKey task) t' (tasks mgr)\<rparr>,
      length (submitted (dispatcher mgr)))"
  by (cases task)
    (simp_all add: SyncData_def Submit_def Let_def taskKey_def SegmentID_def Checkpoint_def
      WithAllocator_def WithChunkManager_def)

lemmas sync_simps = SyncData_def Submit_def taskKey_def FormatInt_def SegmentID_def Checkpoint_def
  GetTimestamp_def WithAllocator_def WithChunkManager_def exNilStart_def mgrWith_def mkTask_def
  posAt_def newKeyLockDispatcher_def Let_def

text \<open>
  Claim C5, as the code has it. \<open>SyncData\<close> has no check of the key and no exit that
  rejects. Let \<open>t'\<close> be the submitted task with the manager's collaborators stored in
  it. When the key of the task is already in the in-flight registry, the call inserts
  \<open>t'\<close> under that key, so that the registry maps the key to \<open>t'\<close>, hands \<open>t'\<close> to
  \<open>Submit\<close> under the segment id of the task as the latest job, changes nothing else
  in the manager, and returns the future of that job.
\<close>

theorem SyncData_duplicate_key_scheduled:
  "taskKey task \<in> fst ` set (tasks mgr) \<Longrightarrow>
   t' = (case task of
           SyncTask f \<Rightarrow>
             SyncTask (WithChunkManager (chunkManager mgr) (WithAllocator (allocator mgr) f))
         | SyncTaskV2 f \<Rightarrow> SyncTaskV2 (WithAllocator (allocator mgr) f)
         | OtherTask f \<Rightarrow> OtherTask f) \<Longrightarrow>
   SyncData mgr task =
     (mgr\<lparr>dispatcher := (dispatcher mgr)\<lparr>submitted :=
              submitted (dispatcher mgr) @ [(SegmentID task, t', taskKey task)]\<rparr>,
          tasks := Insert (taskKey task) t' (tasks mgr)\<rparr>,
      length (submitted (dispatcher mgr)))
   \<and> map_of (tasks (fst (SyncData mgr task))) (taskKey task) = Some t'
   \<and> last (submitted (dispatcher (fst (SyncData mgr task)))) = (SegmentID task, t', taskKey task)
   \<and> snd (SyncData mgr task) = length (submitted (dispatcher mgr))"
proof -
  assume t': "t' = (case task of
           SyncTask f \<Rightarrow>
             SyncTask (WithChunkManager (chunkManager mgr) (WithAllocator (allocator mgr) f))
         | SyncTaskV2 f \<Rightarrow> SyncTaskV2 (WithAllocator (allocator mgr) f)
         | OtherTask f \<Rightarrow> OtherTask f)"
  note r = SyncData_result [OF t']
  show ?thesis
    unfolding r by (simp add: map_of_Insert)
qed

theorem SyncData_duplicate_key_scheduled_witness:
  "taskKey (mkTask 7 ''ch1'' None (Some (posAt ''ch1'' 100))) \<in> fst ` set (tasks exNilStart)
   \<and> map_of (tasks exNilStart) ''7-100'' = Some (mkTask 7 ''ch1'' None (Some (posAt ''ch1'' 100)))
   \<and> map_of (tasks (fst (SyncData exNilStart (mkTask 7 ''ch1'' None (Some (posAt ''ch1'' 100))))))
        (taskKey (mkTask 7 ''ch1'' None (Some (posAt ''ch1'' 100))))
      = Some (SyncTask \<lparr>segmentID = 7, channelName = ''ch1'', startPosition = None,
                checkpoint = Some (posAt ''ch1'' 100), taskAllocator = Some 2,
                taskChunkManager = Some 1\<rparr>)
   \<and> last (submitted (dispatcher (fst (SyncData exNilStart (mkTask 7 ''ch1'' None (Some (posAt ''ch1'' 100)))))))
      = (7, SyncTask \<lparr>segmentID = 7, channelName = ''ch1'', startPosition = None,
                checkpoint = Some (posAt ''ch1'' 100), taskAllocator = Some 2,
                taskChunkManager = Some 1\<rparr>, ''7-100'')
   \<and> snd (SyncData exNilStart (mkTask 7 ''ch1'' None (Some (posAt ''ch1'' 100)))) = 0"
  using SyncData_duplicate_key_scheduled [of "mkTask 7 ''ch1'' None (Some (posAt ''ch1'' 100))" exNilStart
      "SyncTask \<lparr>segmentID = 7, channelName = ''ch1'', startPosition = None,
                checkpoint = Some (posAt ''ch1'' 100), taskAllocator = Some 2,
                taskChunkManager = Some 1\<rparr>"]
  by (simp add: sync_simps)

text \<open>
  C5 as written fails: the registry holds a task under the key \<open>7-100\<close>, a task with the
  same key is submitted, and the call schedules it for segment 7 and returns its future.
\<close>

theorem SyncData_duplicate_key_counterexample:
  "map fst (tasks exNilStart) = [''7-100'']
   \<and> taskKey (mkTask 7 ''ch1'' None (Some (posAt ''ch1'' 100))) = ''7-100''
   \<and> map fst (tasks (fst (SyncData exNilStart (mkTask 7 ''ch1'' None (Some (posAt ''ch1'' 100)))))) = [''7-100'']
   \<and> map fst (submitted (dispatcher (fst (SyncData exNilStart (mkTask 7 ''ch1'' None (Some (posAt ''ch1'' 100)))))))
       = [7]
   \<and> map (snd \<circ> snd) (submitted (dispatcher (fst (SyncData exNilStart (mkTask 7 ''ch1'' None (Some (posAt ''ch1'' 100)))))))
       = [''7-100'']
   \<and> snd (SyncData exNilStart (mkTask 7 ''ch1'' None (Some (posAt ''ch1'' 100)))) = 0"
  by (simp add: sync_simps)

section \<open>Monotone checkpoints\<close>

lemma update_calls: "publishCalls (update c p cb u) = publishCalls u"
  by (simp add: update_def split: option.splits prod.splits)

lemma update_ts: "publishedTimestamps c (update c' p cb u) = publishedTimestamps c u"
  by (simp add: publishedTimestamps_def update_calls)

lemma cpInv_new: "cpInv c newChannelCheckpointUpdater"
  by (simp add: cpInv_def newChannelCheckpointUpdater_def publishedTimestamps_def)

lemma cpInv_update: "cpInv c u \<Longrightarrow> cpInv c (update c' p cb u)"
  unfolding cpInv_def update_ts
  by (cases "c' = c")
   (auto simp: update_def ceiling_ts_def notNewer_def list_all_iff split: option.splits prod.splits if_splits)

lemma publish_ts_other: "c' \<noteq> c \<Longrightarrow> publishedTimestamps c (publish c' a u) = publishedTimestamps c u"
  by (simp add: publish_def publishedTimestamps_def split: option.splits prod.splits)

lemma cpInv_publish: "cpInv c u \<Longrightarrow> cpInv c (publish c' a u)"
proof (cases "c' = c")
  case False
  assume "cpInv c u"
  with False show ?thesis
    unfolding cpInv_def publish_ts_other [OF False]
    by (auto simp: publish_def ceiling_ts_def split: option.splits prod.splits)
next
  case True
  assume inv: "cpInv c u"
  show ?thesis
  proof (cases "pending u c")
    case None
    with inv True show ?thesis by (simp add: publish_def)
  next
    case (Some pc)
    obtain p cbs where pc: "pc = (p, cbs)" by (cases pc)
    have ts: "publishedTimestamps c (publish c a u) = publishedTimestamps c u @ [pos_Timestamp p]"
      using Some pc by (simp add: publish_def publishedTimestamps_def)
    from inv Some pc have le: "\<forall>t \<in> set (publishedTimestamps c u). t \<le> pos_Timestamp p"
      by (simp add: cpInv_def ceiling_ts_def list_all_iff)
    from inv have srt: "sorted (publishedTimestamps c u)" by (simp add: cpInv_def)
    have "sorted (publishedTimestamps c (publish c a u))"
      unfolding ts using srt le by (simp add: sorted_append)
    moreover have "ceiling_ts c (publish c a u) = Some (pos_Timestamp p)"
      using Some pc by (simp add: publish_def ceiling_ts_def)
    moreover have "case pending (publish c a u) c of None \<Rightarrow> True
        | Some (p, cbs) \<Rightarrow> \<not> notNewer p (published (publish c a u) c)"
      using inv Some pc by (simp add: publish_def cpInv_def)
    ultimately show ?thesis
      unfolding True cpInv_def ts using le by (simp add: list_all_iff)
  qed
qed

lemma cpInv_step: "cpInv c u \<Longrightarrow> cpInv c (cpStep u e)"
  by (cases e) (simp_all add: cpInv_update cpInv_publish)

lemma cpInv_foldl: "cpInv c u \<Longrightarrow> cpInv c (foldl cpStep u evs)"
  by (induction evs arbitrary: u) (simp_all add: cpInv_step)

lemma cpInv_run: "cpInv c (cpRun evs)"
  unfolding cpRun_def by (rule cpInv_foldl [OF cpInv_new])


lemma update_published: "published (update c' p cb u) = published u"
  by (simp add: update_def split: option.splits prod.splits)

lemma published_step_mono:
  assumes inv: "cpInv c u" and pub: "published u c = Some lp"
  shows "\<exists>lp'. published (cpStep u e) c = Some lp' \<and> pos_Timestamp lp \<le> pos_Timestamp lp'"
proof (cases e)
  case (Update c' p cb)
  with pub show ?thesis by (simp add: update_published)
next
  case (Publish c' a)
  show ?thesis
  proof (cases "c' = c \<and> a \<and> pending u c \<noteq> None")
    case True
    then obtain p cbs where pc: "pending u c = Some (p, cbs)" by auto
    with inv pub have "pos_Timestamp lp < pos_Timestamp p"
      by (auto simp: cpInv_def notNewer_def)
    with True pc Publish show ?thesis by (simp add: publish_def)
  next
    case False
    with pub Publish show ?thesis
      by (auto simp: publish_def split: option.splits prod.splits)
  qed
qed

lemmas cp_simps = cpRun_def exUpdates_def update_def publish_def notNewer_def posAt_def
  newChannelCheckpointUpdater_def publishedTimestamps_def

text \<open>
  Claim C2, on the updater as the spec describes it (\<open>ttNode.updateChannelCP\<close> only hands
  the position and the callback over). An update whose position is not newer by timestamp
  than the last published position of its channel leaves the updater as it was. After any
  sequence of updates and publication attempts, accepted or failed, the timestamps passed
  to the durable publish call for a channel are in non-decreasing order, and no further
  step lowers the timestamp of the channel's last published position.
\<close>

theorem checkpoint_monotone:
  "(published u c = Some lp \<and> pos_Timestamp p \<le> pos_Timestamp lp \<longrightarrow> update c p onSuccess u = u)
   \<and> sorted (publishedTimestamps c (cpRun evs))
   \<and> (published (cpRun evs) c = Some lp \<longrightarrow>
        (\<exists>lp'. published (cpRun (evs @ [e])) c = Some lp' \<and> pos_Timestamp lp \<le> pos_Timestamp lp'))"
proof (intro conjI impI)
  assume "published u c = Some lp \<and> pos_Timestamp p \<le> pos_Timestamp lp"
  then show "update c p onSuccess u = u" by (simp add: update_def notNewer_def)
next
  from cpInv_run [of c evs] show "sorted (publishedTimestamps c (cpRun evs))"
    by (simp add: cpInv_def)
next
  assume "published (cpRun evs) c = Some lp"
  from published_step_mono [OF cpInv_run this, of e]
  show "\<exists>lp'. published (cpRun (evs @ [e])) c = Some lp' \<and> pos_Timestamp lp \<le> pos_Timestamp lp'"
    by (simp add: cpRun_def)
qed

theorem checkpoint_monotone_witness:
  "published (cpRun exUpdates) ''ch1'' = Some (posAt ''ch1'' 20)
   \<and> update ''ch1'' (posAt ''ch1'' 5) 6 (cpRun exUpdates) = cpRun exUpdates
   \<and> publishedTimestamps ''ch1'' (cpRun exUpdates) = [10, 20]
   \<and> sorted (publishedTimestamps ''ch1'' (cpRun exUpdates))
   \<and> published (cpRun (exUpdates @ [Update ''ch1'' (posAt ''ch1'' 30) 7, Publish ''ch1'' True])) ''ch1''
       = Some (posAt ''ch1'' 30)"
proof -
  have pub: "published (cpRun exUpdates) ''ch1'' = Some (posAt ''ch1'' 20)"
    by (simp add: cp_simps)
  have le: "pos_Timestamp (posAt ''ch1'' 5) \<le> pos_Timestamp (posAt ''ch1'' 20)"
    by (simp add: posAt_def)
  from checkpoint_monotone [of "cpRun exUpdates" "''ch1''" "posAt ''ch1'' 20" "posAt ''ch1'' 5" 6 exUpdates] pub le
  have "update ''ch1'' (posAt ''ch1'' 5) 6 (cpRun exUpdates) = cpRun exUpdates"
    and "sorted (publishedTimestamps ''ch1'' (cpRun exUpdates))"
    by blast+
  moreover have "publishedTimestamps ''ch1'' (cpRun exUpdates) = [10, 20]"
    by (simp add: cp_simps)
  moreover have "published (cpRun (exUpdates @ [Update ''ch1'' (posAt ''ch1'' 30) 7, Publish ''ch1'' True])) ''ch1''
       = Some (posAt ''ch1'' 30)"
    by (simp add: cp_simps)
  ultimately show ?thesis using pub by simp
qed

section \<open>The results of Operate\<close>

lemma close_empty_result:
  "isCloseMsg fgMsg \<Longrightarrow> endPositions fgMsg = [] \<Longrightarrow>
     Operate env ttn (FlowGraphMsg fgMsg # rest) = Returned (FlowGraphMsg fgMsg # rest) ttn []"
  by simp

lemma close_ok_result:
  "isCloseMsg fgMsg \<Longrightarrow> endPositions fgMsg \<noteq> [] \<Longrightarrow>
   GetCheckpoint (writeBufferManager ttn) (vChannelName ttn) = (channelPos, needUpdate, None) \<Longrightarrow>
     Operate env ttn (FlowGraphMsg fgMsg # rest) =
       Returned (FlowGraphMsg fgMsg # rest) ttn
         [GetCheckpointReturned (vChannelName ttn) (channelPos, needUpdate, None),
          LogInfoForceUpdate (GetTimestamp channelPos) (GetChannelName channelPos),
          CpUpdaterUpdateChannelCP channelPos
            \<lparr>cb_channelPos = channelPos,
               cb_curTs = ParseTS env (timestampMax (timeRange fgMsg))\<rparr>]"
  by (simp add: updateChannelCP_def)

lemma close_err_result:
  "isCloseMsg fgMsg \<Longrightarrow> endPositions fgMsg \<noteq> [] \<Longrightarrow>
   GetCheckpoint (writeBufferManager ttn) (vChannelName ttn) = (channelPos, needUpdate, Some err) \<Longrightarrow>
     Operate env ttn (FlowGraphMsg fgMsg # rest) =
       Returned [] ttn
         [GetCheckpointReturned (vChannelName ttn) (channelPos, needUpdate, Some err),
          LogWarnChannelRemoved (vChannelName ttn) err]"
  by simp

lemma tick_err_result:
  "\<not> isCloseMsg fgMsg \<Longrightarrow>
   GetCheckpoint (writeBufferManager ttn) (vChannelName ttn) = (channelPos, needUpdate, Some err) \<Longrightarrow>
     Operate env ttn (FlowGraphMsg fgMsg # rest) =
       Returned [] ttn
         [GetCheckpointReturned (vChannelName ttn) (channelPos, needUpdate, Some err),
          LogWarnChannelRemoved (vChannelName ttn) err]"
  by simp

lemma tick_ok_result:
  "\<not> isCloseMsg fgMsg \<Longrightarrow>
   GetCheckpoint (writeBufferManager ttn) (vChannelName ttn) = (channelPos, needUpdate, None) \<Longrightarrow>
     Operate env ttn (FlowGraphMsg fgMsg # rest) =
       Returned [] ttn
         (GetCheckpointReturned (vChannelName ttn) (channelPos, needUpdate, None) #
          (if needUpdate \<or> updateChanCPInterval env \<le>s
                 time_Sub (ParseTS env (timestampMax (timeRange fgMsg))) (lastUpdateTime ttn)
           then [CpUpdaterUpdateChannelCP channelPos
                   \<lparr>cb_channelPos = channelPos,
                      cb_curTs = ParseTS env (timestampMax (timeRange fgMsg))\<rparr>]
           else []))"
  by (simp add: updateChannelCP_def)

lemma Operate_cases:
  obtains (panic) "Operate env ttn inMsgs = Panicked"
      "inMsgs = [] \<or> (\<exists>rest. inMsgs = OtherMsg # rest)"
  | (close_empty) fgMsg rest where "inMsgs = FlowGraphMsg fgMsg # rest"
      "isCloseMsg fgMsg" "endPositions fgMsg = []"
  | (close_ok) fgMsg rest channelPos needUpdate where "inMsgs = FlowGraphMsg fgMsg # rest"
      "isCloseMsg fgMsg" "endPositions fgMsg \<noteq> []"
      "GetCheckpoint (writeBufferManager ttn) (vChannelName ttn) = (channelPos, needUpdate, None)"
  | (close_err) fgMsg rest channelPos needUpdate err where "inMsgs = FlowGraphMsg fgMsg # rest"
      "isCloseMsg fgMsg" "endPositions fgMsg \<noteq> []"
      "GetCheckpoint (writeBufferManager ttn) (vChannelName ttn) = (channelPos, needUpdate, Some err)"
  | (tick_ok) fgMsg rest channelPos needUpdate where "inMsgs = FlowGraphMsg fgMsg # rest"
      "\<not> isCloseMsg fgMsg"
      "GetCheckpoint (writeBufferManager ttn) (vChannelName ttn) = (channelPos, needUpdate, None)"
  | (tick_err) fgMsg rest channelPos needUpdate err where "inMsgs = FlowGraphMsg fgMsg # rest"
      "\<not> isCloseMsg fgMsg"
      "GetCheckpoint (writeBufferManager ttn) (vChannelName ttn) = (channelPos, needUpdate, Some err)"
proof (cases inMsgs)
  case Nil
  then show ?thesis using panic by simp
next
  case (Cons m rest)
  show ?thesis
  proof (cases m)
    case OtherMsg
    with Cons show ?thesis using panic by simp
  next
    case (FlowGraphMsg fgMsg)
    obtain channelPos needUpdate e where
      g: "GetCheckpoint (writeBufferManager ttn) (vChannelName ttn) = (channelPos, needUpdate, e)"
      by (cases "GetCheckpoint (writeBufferManager ttn) (vChannelName ttn)")
    have inMsgs: "inMsgs = FlowGraphMsg fgMsg # rest"
      using Cons FlowGraphMsg by simp
    show ?thesis
    proof (cases "isCloseMsg fgMsg")
      case True
      show ?thesis
      proof (cases "endPositions fgMsg = []")
        case True
        from inMsgs \<open>isCloseMsg fgMsg\<close> True show ?thesis by (rule close_empty)
      next
        case False
        show ?thesis
        proof (cases e)
          case None
          from inMsgs \<open>isCloseMsg fgMsg\<close> False g [unfolded None] show ?thesis by (rule close_ok)
        next
          case (Some err)
          from inMsgs \<open>isCloseMsg fgMsg\<close> False g [unfolded Some] show ?thesis by (rule close_err)
        qed
      qed
    next
      case False
      show ?thesis
      proof (cases e)
        case None
        from inMsgs False g [unfolded None] show ?thesis by (rule tick_ok)
      next
        case (Some err)
        from inMsgs False g [unfolded Some] show ?thesis by (rule tick_err)
      qed
    qed
  qed
qed

lemmas tt_simps = exEnv_def exNode_def wbAt_def wbRemoved_def tickMsg_def closeMsg_def posAt_def
  updateIssued_def updateChannelCP_def time_Sub_def zeroTime_def maxDuration_def minDuration_def
  word_sle_eq GetTimestamp_def GetChannelName_def

text \<open>
  Claim C6, as the code has it. On a tick that is not a close message \<open>Operate\<close>
  returns, without panic, the empty output and the node as it was, in every case. When
  \<open>GetCheckpoint\<close> returns no error, an update for the position it returned is handed
  to the checkpoint updater if and only if the needs-update flag is set or \<open>curTs\<close> minus
  \<open>lastUpdateTime\<close> (the saturating \<open>Time.Sub\<close>) is at least the update interval, and
  nothing else is done.
\<close>

theorem Operate_tick:
  "\<not> isCloseMsg fgMsg \<Longrightarrow>
     (\<exists>evs. Operate env ttn (FlowGraphMsg fgMsg # rest) = Returned [] ttn evs)
     \<and> (GetCheckpoint (writeBufferManager ttn) (vChannelName ttn) = (channelPos, needUpdate, None) \<longrightarrow>
          Operate env ttn (FlowGraphMsg fgMsg # rest) =
            Returned [] ttn
              (GetCheckpointReturned (vChannelName ttn) (channelPos, needUpdate, None) #
               (if needUpdate \<or> updateChanCPInterval env \<le>s
                      time_Sub (ParseTS env (timestampMax (timeRange fgMsg))) (lastUpdateTime ttn)
                then [CpUpdaterUpdateChannelCP channelPos
                        \<lparr>cb_channelPos = channelPos,
                           cb_curTs = ParseTS env (timestampMax (timeRange fgMsg))\<rparr>]
                else []))
          \<and> (updateIssued (Operate env ttn (FlowGraphMsg fgMsg # rest)) \<longleftrightarrow>
               needUpdate \<or> updateChanCPInterval env \<le>s
                 time_Sub (ParseTS env (timestampMax (timeRange fgMsg))) (lastUpdateTime ttn)))"
proof -
  assume nc: "\<not> isCloseMsg fgMsg"
  obtain channelPos' needUpdate' e where
    g: "GetCheckpoint (writeBufferManager ttn) (vChannelName ttn) = (channelPos', needUpdate', e)"
    by (cases "GetCheckpoint (writeBufferManager ttn) (vChannelName ttn)")
  have ret: "\<exists>evs. Operate env ttn (FlowGraphMsg fgMsg # rest) = Returned [] ttn evs"
  proof (cases e)
    case None
    with g tick_ok_result [OF nc, of ttn channelPos' needUpdate' env rest] show ?thesis by blast
  next
    case (Some err)
    with g tick_err_result [OF nc, of ttn channelPos' needUpdate' err env rest] show ?thesis by blast
  qed
  have ok: "Operate env ttn (FlowGraphMsg fgMsg # rest) =
            Returned [] ttn
              (GetCheckpointReturned (vChannelName ttn) (channelPos, needUpdate, None) #
               (if needUpdate \<or> updateChanCPInterval env \<le>s
                      time_Sub (ParseTS env (timestampMax (timeRange fgMsg))) (lastUpdateTime ttn)
                then [CpUpdaterUpdateChannelCP channelPos
                        \<lparr>cb_channelPos = channelPos,
                           cb_curTs = ParseTS env (timestampMax (timeRange fgMsg))\<rparr>]
                else []))
          \<and> (updateIssued (Operate env ttn (FlowGraphMsg fgMsg # rest)) \<longleftrightarrow>
               needUpdate \<or> updateChanCPInterval env \<le>s
                 time_Sub (ParseTS env (timestampMax (timeRange fgMsg))) (lastUpdateTime ttn))"
    if "GetCheckpoint (writeBufferManager ttn) (vChannelName ttn) = (channelPos, needUpdate, None)"
    using tick_ok_result [OF nc that, of env rest] by (simp add: updateIssued_def)
  from ret ok show ?thesis by blast
qed

theorem Operate_tick_witness:
  "Operate exEnv (exNode (wbAt False) 1000000000) [tickMsg 262144000] =
     Returned [] (exNode (wbAt False) 1000000000)
       [GetCheckpointReturned ''ch1'' (Some (posAt ''ch1'' 42), False, None)]
   \<and> \<not> updateIssued (Operate exEnv (exNode (wbAt False) 1000000000) [tickMsg 262144000])
   \<and> Operate exEnv (exNode (wbAt True) 1000000000) [tickMsg 262144000] =
     Returned [] (exNode (wbAt True) 1000000000)
       [GetCheckpointReturned ''ch1'' (Some (posAt ''ch1'' 42), True, None),
        CpUpdaterUpdateChannelCP (Some (posAt ''ch1'' 42))
          \<lparr>cb_channelPos = Some (posAt ''ch1'' 42), cb_curTs = 1000000000\<rparr>]
   \<and> updateIssued (Operate exEnv (exNode (wbAt False) 1000000000) [tickMsg 15990784000])"
  using Operate_tick [of "\<lparr>isCloseMsg = False, timeRange = \<lparr>timestampMin = 0, timestampMax = 262144000\<rparr>, endPositions = []\<rparr>"
      exEnv "exNode (wbAt False) 1000000000" "[]" "Some (posAt ''ch1'' 42)" False]
    Operate_tick [of "\<lparr>isCloseMsg = False, timeRange = \<lparr>timestampMin = 0, timestampMax = 262144000\<rparr>, endPositions = []\<rparr>"
      exEnv "exNode (wbAt True) 1000000000" "[]" "Some (posAt ''ch1'' 42)" True]
  by (simp add: tt_simps drop_bit_eq_div)

text \<open>
  C6 as written fails when \<open>GetCheckpoint\<close> returns an error: the interval has elapsed
  since the zero time, and no update is issued.
\<close>

theorem Operate_tick_error_counterexample:
  "updateChanCPInterval exEnv \<le>s time_Sub (ParseTS exEnv 262144000) (lastUpdateTime (exNode wbRemoved zeroTime))
   \<and> \<not> updateIssued (Operate exEnv (exNode wbRemoved zeroTime) [tickMsg 262144000])"
  by (simp add: tt_simps drop_bit_eq_div)

text \<open>
  Claim C7, as the code has it. On a close message with end positions, when
  \<open>GetCheckpoint\<close> returns no error, the update for the position it returned is handed
  to the checkpoint updater whatever the flag, the interval and \<open>lastUpdateTime\<close> are,
  and the input is returned as it came. On a close message without end positions the
  input is returned as it came, nothing is asked of the write buffer and no update is
  issued.
\<close>

theorem Operate_close:
  "isCloseMsg fgMsg \<Longrightarrow>
     (endPositions fgMsg \<noteq> [] \<and>
      GetCheckpoint (writeBufferManager ttn) (vChannelName ttn) = (channelPos, needUpdate, None) \<longrightarrow>
        Operate env ttn (FlowGraphMsg fgMsg # rest) =
          Returned (FlowGraphMsg fgMsg # rest) ttn
            [GetCheckpointReturned (vChannelName ttn) (channelPos, needUpdate, None),
             LogInfoForceUpdate (GetTimestamp channelPos) (GetChannelName channelPos),
             CpUpdaterUpdateChannelCP channelPos
               \<lparr>cb_channelPos = channelPos,
                  cb_curTs = ParseTS env (timestampMax (timeRange fgMsg))\<rparr>])
     \<and> (endPositions fgMsg = [] \<longrightarrow>
          Operate env ttn (FlowGraphMsg fgMsg # rest) = Returned (FlowGraphMsg fgMsg # rest) ttn [])"
  using close_ok_result [of fgMsg ttn channelPos needUpdate env rest]
    close_empty_result [of fgMsg env ttn rest]
  by blast

theorem Operate_close_witness:
  "updateIssued (Operate exEnv (exNode (wbAt False) 1000000000) [closeMsg 262144000 [posAt ''ch1'' 7]])
   \<and> outputOf (Operate exEnv (exNode (wbAt False) 1000000000) [closeMsg 262144000 [posAt ''ch1'' 7]])
       = [closeMsg 262144000 [posAt ''ch1'' 7]]
   \<and> Operate exEnv (exNode (wbAt False) 1000000000) [closeMsg 262144000 []]
       = Returned [closeMsg 262144000 []] (exNode (wbAt False) 1000000000) []"
  using Operate_close [of "\<lparr>isCloseMsg = True, timeRange = \<lparr>timestampMin = 0, timestampMax = 262144000\<rparr>, endPositions = [posAt ''ch1'' 7]\<rparr>"
      "exNode (wbAt False) 1000000000" "Some (posAt ''ch1'' 42)" False exEnv "[]"]
    Operate_close [of "\<lparr>isCloseMsg = True, timeRange = \<lparr>timestampMin = 0, timestampMax = 262144000\<rparr>, endPositions = []\<rparr>"
      "exNode (wbAt False) 1000000000" "Some (posAt ''ch1'' 42)" False exEnv "[]"]
  by (simp add: tt_simps)

text \<open>
  C7 as written fails when \<open>GetCheckpoint\<close> returns an error: the close message has an
  end position, yet no update is issued and the output is empty.
\<close>

theorem Operate_close_error_counterexample:
  "outputOf (Operate exEnv (exNode wbRemoved 1000000000) [closeMsg 262144000 [posAt ''ch1'' 7]]) = []
   \<and> \<not> updateIssued (Operate exEnv (exNode wbRemoved 1000000000) [closeMsg 262144000 [posAt ''ch1'' 7]])"
  by (simp add: tt_simps)

text \<open>
  Claim C8. Whenever a call of \<open>GetCheckpoint\<close> made by \<open>Operate\<close> returns an error,
  \<open>Operate\<close> does not panic: it logs the removed channel and returns the empty output,
  with the node unchanged and no update issued. The call is made on every tick that is
  not a close message and on every close message with end positions; on both paths an
  error from the write buffer gives this result.
\<close>

theorem Operate_channel_removed:
  "(GetCheckpointReturned ch (channelPos, needUpdate, Some err) \<in> set (eventsOf (Operate env ttn inMsgs)) \<longrightarrow>
      Operate env ttn inMsgs =
        Returned [] ttn [GetCheckpointReturned (vChannelName ttn) (channelPos, needUpdate, Some err),
                         LogWarnChannelRemoved (vChannelName ttn) err])
   \<and> (GetCheckpoint (writeBufferManager ttn) (vChannelName ttn) = (channelPos, needUpdate, Some err) \<and>
        (\<not> isCloseMsg fgMsg \<or> endPositions fgMsg \<noteq> []) \<longrightarrow>
      Operate env ttn (FlowGraphMsg fgMsg # rest) =
        Returned [] ttn [GetCheckpointReturned (vChannelName ttn) (channelPos, needUpdate, Some err),
                         LogWarnChannelRemoved (vChannelName ttn) err])"
proof (intro conjI impI)
  assume ev: "GetCheckpointReturned ch (channelPos, needUpdate, Some err) \<in> set (eventsOf (Operate env ttn inMsgs))"
  show "Operate env ttn inMsgs =
        Returned [] ttn [GetCheckpointReturned (vChannelName ttn) (channelPos, needUpdate, Some err),
                         LogWarnChannelRemoved (vChannelName ttn) err]"
  proof (cases env ttn inMsgs rule: Operate_cases)
    case panic
    with ev show ?thesis by simp
  next
    case (close_empty fgMsg rest)
    with ev show ?thesis by simp
  next
    case (close_ok fgMsg rest cp nu)
    with ev close_ok_result [OF close_ok(2,3,4), of env rest] show ?thesis by auto
  next
    case (close_err fgMsg rest cp nu e)
    with ev close_err_result [OF close_err(2,3,4), of env rest] show ?thesis by auto
  next
    case (tick_ok fgMsg rest cp nu)
    with ev tick_ok_result [OF tick_ok(2,3), of env rest] show ?thesis by (auto split: if_splits)
  next
    case (tick_err fgMsg rest cp nu e)
    with ev tick_err_result [OF tick_err(2,3), of env rest] show ?thesis by auto
  qed
next
  assume "GetCheckpoint (writeBufferManager ttn) (vChannelName ttn) = (channelPos, needUpdate, Some err) \<and>
        (\<not> isCloseMsg fgMsg \<or> endPositions fgMsg \<noteq> [])"
  then show "Operate env ttn (FlowGraphMsg fgMsg # rest) =
        Returned [] ttn [GetCheckpointReturned (vChannelName ttn) (channelPos, needUpdate, Some err),
                         LogWarnChannelRemoved (vChannelName ttn) err]"
    using tick_err_result [of fgMsg ttn channelPos needUpdate err env rest]
      close_err_result [of fgMsg ttn channelPos needUpdate err env rest]
    by blast
qed

theorem Operate_channel_removed_witness:
  "Operate exEnv (exNode wbRemoved 1000000000) [tickMsg 262144000] =
     Returned [] (exNode wbRemoved 1000000000)
       [GetCheckpointReturned ''ch1'' (None, False, Some (ErrOther ''channel not found'')),
        LogWarnChannelRemoved ''ch1'' (ErrOther ''channel not found'')]
   \<and> Operate exEnv (exNode wbRemoved 1000000000) [closeMsg 262144000 [posAt ''ch1'' 7]] =
     Returned [] (exNode wbRemoved 1000000000)
       [GetCheckpointReturned ''ch1'' (None, False, Some (ErrOther ''channel not found'')),
        LogWarnChannelRemoved ''ch1'' (ErrOther ''channel not found'')]"
  using Operate_channel_removed [of "''ch1''" None False "ErrOther ''channel not found''" exEnv
      "exNode wbRemoved 1000000000" "[tickMsg 262144000]"
      "\<lparr>isCloseMsg = True, timeRange = \<lparr>timestampMin = 0, timestampMax = 262144000\<rparr>, endPositions = [posAt ''ch1'' 7]\<rparr>" "[]"]
  by (simp add: tt_simps)

section \<open>The last update time\<close>

lemma sle_maxDuration: "(d :: Duration) \<le>s word_of_int maxDuration"
proof -
  have "sint d < 2 ^ (LENGTH(64) - 1)" by (rule sint_lt)
  then have "sint d \<le> 9223372036854775807" by simp
  moreover have "sint (word_of_int maxDuration :: Duration) = 9223372036854775807"
    by (simp add: maxDuration_def)
  ultimately show ?thesis by (simp add: word_sle_eq)
qed

lemma first_tick_interval:
  "0 \<le> curTs \<Longrightarrow> (d :: Duration) \<le>s time_Sub curTs zeroTime"
proof -
  assume "0 \<le> curTs"
  then have "maxDuration < curTs - zeroTime"
    by (simp add: maxDuration_def zeroTime_def)
  then have "time_Sub curTs zeroTime = word_of_int maxDuration"
    by (simp add: time_Sub_def)
  then show ?thesis by (simp add: sle_maxDuration)
qed

lemma Operate_node_unchanged:
  "Operate env ttn inMsgs = Returned out ttn' evs \<Longrightarrow> ttn' = ttn"
proof (cases env ttn inMsgs rule: Operate_cases)
  case panic
  assume "Operate env ttn inMsgs = Returned out ttn' evs"
  with panic show ?thesis by simp
next
  case (close_empty fgMsg rest)
  assume "Operate env ttn inMsgs = Returned out ttn' evs"
  with close_empty show ?thesis by simp
next
  case (close_ok fgMsg rest cp nu)
  assume "Operate env ttn inMsgs = Returned out ttn' evs"
  with close_ok(1) close_ok_result [OF close_ok(2,3,4), of env rest] show ?thesis by simp
next
  case (close_err fgMsg rest cp nu e)
  assume "Operate env ttn inMsgs = Returned out ttn' evs"
  with close_err(1) close_err_result [OF close_err(2,3,4), of env rest] show ?thesis by simp
next
  case (tick_ok fgMsg rest cp nu)
  assume "Operate env ttn inMsgs = Returned out ttn' evs"
  with tick_ok(1) tick_ok_result [OF tick_ok(2,3), of env rest] show ?thesis by simp
next
  case (tick_err fgMsg rest cp nu e)
  assume "Operate env ttn inMsgs = Returned out ttn' evs"
  with tick_err(1) tick_err_result [OF tick_err(2,3), of env rest] show ?thesis by simp
qed

text \<open>
  Claim C9, as the code has it. \<open>newTTNode\<close> returns a node whose \<open>lastUpdateTime\<close>
  is the zero time, so a first tick at or after the Unix epoch satisfies the interval
  condition whatever the interval is; when that tick is no close message and
  \<open>GetCheckpoint\<close> returns no error, it issues an update. \<open>Operate\<close> and
  \<open>updateChannelCP\<close> leave \<open>lastUpdateTime\<close> as it was: the update they hand over
  carries \<open>curTs\<close> in its callback, and running the callback is what stores it.
\<close>

theorem lastUpdateTime_stored_in_callback:
  "(\<exists>tt. newTTNode config wb = (Some tt, None) \<and> lastUpdateTime tt = zeroTime
       \<and> (0 \<le> ParseTS env (timestampMax (timeRange fgMsg)) \<longrightarrow>
            updateChanCPInterval env \<le>s
              time_Sub (ParseTS env (timestampMax (timeRange fgMsg))) (lastUpdateTime tt))
       \<and> (0 \<le> ParseTS env (timestampMax (timeRange fgMsg)) \<and> \<not> isCloseMsg fgMsg \<and>
            GetCheckpoint wb (cfg_vChannelName config) = (channelPos, needUpdate, None) \<longrightarrow>
            updateIssued (Operate env tt (FlowGraphMsg fgMsg # rest))))
   \<and> (Operate env ttn inMsgs = Returned out ttn' evs \<longrightarrow> lastUpdateTime ttn' = lastUpdateTime ttn)
   \<and> updateChannelCP ttn pos curTs =
        (ttn, [CpUpdaterUpdateChannelCP pos \<lparr>cb_channelPos = pos, cb_curTs = curTs\<rparr>])
   \<and> lastUpdateTime (fst (runCallBack ttn cb)) = cb_curTs cb"
proof (intro conjI)
  let ?tt = "\<lparr>baseNode = \<lparr>maxQueueLength = cfg_FlowGraphMaxQueueLength config,
                         maxParallelism = cfg_FlowGraphMaxParallelism config\<rparr>,
            vChannelName = cfg_vChannelName config,
            writeBufferManager = wb,
            lastUpdateTime = zeroTime\<rparr>"
  let ?curTs = "ParseTS env (timestampMax (timeRange fgMsg))"
  have new: "newTTNode config wb = (Some ?tt, None)" by (simp add: newTTNode_def)
  have zero: "lastUpdateTime ?tt = zeroTime" by simp
  have iv: "updateChanCPInterval env \<le>s time_Sub ?curTs (lastUpdateTime ?tt)" if "0 \<le> ?curTs"
    using first_tick_interval [OF that] by simp
  have upd: "updateIssued (Operate env ?tt (FlowGraphMsg fgMsg # rest))"
    if h: "0 \<le> ?curTs \<and> \<not> isCloseMsg fgMsg \<and>
        GetCheckpoint wb (cfg_vChannelName config) = (channelPos, needUpdate, None)"
  proof -
    from h have nc: "\<not> isCloseMsg fgMsg"
      and g: "GetCheckpoint (writeBufferManager ?tt) (vChannelName ?tt) = (channelPos, needUpdate, None)"
      by simp_all
    from h iv have "updateChanCPInterval env \<le>s time_Sub ?curTs (lastUpdateTime ?tt)" by blast
    with tick_ok_result [OF nc g, of env rest] show ?thesis
      by (simp add: updateIssued_def)
  qed
  from new zero iv upd
  show "\<exists>tt. newTTNode config wb = (Some tt, None) \<and> lastUpdateTime tt = zeroTime
       \<and> (0 \<le> ?curTs \<longrightarrow> updateChanCPInterval env \<le>s time_Sub ?curTs (lastUpdateTime tt))
       \<and> (0 \<le> ?curTs \<and> \<not> isCloseMsg fgMsg \<and>
            GetCheckpoint wb (cfg_vChannelName config) = (channelPos, needUpdate, None) \<longrightarrow>
            updateIssued (Operate env tt (FlowGraphMsg fgMsg # rest)))"
    by blast
next
  show "Operate env ttn inMsgs = Returned out ttn' evs \<longrightarrow> lastUpdateTime ttn' = lastUpdateTime ttn"
    using Operate_node_unchanged [of env ttn inMsgs out ttn' evs] by blast
next
  show "updateChannelCP ttn pos curTs =
        (ttn, [CpUpdaterUpdateChannelCP pos \<lparr>cb_channelPos = pos, cb_curTs = curTs\<rparr>])"
    by (simp add: updateChannelCP_def)
next
  show "lastUpdateTime (fst (runCallBack ttn cb)) = cb_curTs cb"
    by (simp add: runCallBack_def)
qed

theorem lastUpdateTime_stored_in_callback_witness:
  "map_option lastUpdateTime (fst (newTTNode exConfig (wbAt False))) = Some zeroTime
   \<and> updateIssued (Operate exEnv (exNode (wbAt False) zeroTime) [tickMsg 262144000])
   \<and> Operate exEnv (exNode (wbAt False) zeroTime) [tickMsg 262144000] =
       Returned [] (exNode (wbAt False) zeroTime)
         [GetCheckpointReturned ''ch1'' (Some (posAt ''ch1'' 42), False, None),
          CpUpdaterUpdateChannelCP (Some (posAt ''ch1'' 42))
            \<lparr>cb_channelPos = Some (posAt ''ch1'' 42), cb_curTs = 1000000000\<rparr>]
   \<and> lastUpdateTime (fst (runCallBack (exNode (wbAt False) zeroTime)
        \<lparr>cb_channelPos = Some (posAt ''ch1'' 42), cb_curTs = 1000000000\<rparr>)) = 1000000000"
  using lastUpdateTime_stored_in_callback [of exConfig "wbAt False" exEnv
      "\<lparr>isCloseMsg = False, timeRange = \<lparr>timestampMin = 0, timestampMax = 262144000\<rparr>, endPositions = []\<rparr>"
      "Some (posAt ''ch1'' 42)" False "[]" "exNode (wbAt False) zeroTime" "[tickMsg 262144000]"
      "[]" "exNode (wbAt False) zeroTime"
      "[GetCheckpointReturned ''ch1'' (Some (posAt ''ch1'' 42), False, None),
          CpUpdaterUpdateChannelCP (Some (posAt ''ch1'' 42))
            \<lparr>cb_channelPos = Some (posAt ''ch1'' 42), cb_curTs = 1000000000\<rparr>]"
      "Some (posAt ''ch1'' 42)" 1000000000
      "\<lparr>cb_channelPos = Some (posAt ''ch1'' 42), cb_curTs = 1000000000\<rparr>"]
  by (simp add: tt_simps newTTNode_def exConfig_def runCallBack_def drop_bit_eq_div)

text \<open>
  C9 as written fails on a first tick for which \<open>GetCheckpoint\<close> returns an error: the
  node is fresh, the interval condition holds, and the tick is dropped without an update.
\<close>

theorem first_tick_error_counterexample:
  "newTTNode exConfig wbRemoved = (Some (exNode wbRemoved zeroTime), None)
   \<and> updateChanCPInterval exEnv \<le>s time_Sub (ParseTS exEnv 262144000) (lastUpdateTime (exNode wbRemoved zeroTime))
   \<and> Operate exEnv (exNode wbRemoved zeroTime) [tickMsg 262144000] =
       Returned [] (exNode wbRemoved zeroTime)
         [GetCheckpointReturned ''ch1'' (None, False, Some (ErrOther ''channel not found'')),
          LogWarnChannelRemoved ''ch1'' (ErrOther ''channel not found'')]
   \<and> \<not> updateIssued (Operate exEnv (exNode wbRemoved zeroTime) [tickMsg 262144000])"
  by (simp add: tt_simps newTTNode_def exConfig_def drop_bit_eq_div)

end
